theory Spec2Isabelle
  imports Main
begin

section \<open>The VVM simulator of \<open>assets/app.js\<close>: assembler and fetch-decode-execute machine\<close>

text \<open>
  The development embeds \<open>VVMSimulatorModule\<close> of \<open>info-systems/assets/app.js\<close>:
  \<open>assembleProgram\<close>, \<open>fetch\<close>, \<open>decode\<close>, \<open>execute\<close>, \<open>step\<close>, \<open>loadProgram\<close> and
  \<open>reset\<close>, together with the module-level objects \<open>cpu\<close>, \<open>memory\<close> and \<open>state\<close>.

  Modelling decisions.
  \<^item> A JavaScript value held by a register or a memory cell is a \<open>jsval\<close>: an integer, \<open>NaN\<close>
    (what \<open>parseInt\<close> returns on text without digits, and what arithmetic on \<open>undefined\<close>
    gives) or \<open>undefined\<close> (what reading an array past its length gives). A number is an
    integer that a double represents. The division in \<open>decode\<close> rounds as doubles do;
    sums, differences and \<open>parseInt\<close> are exact, which is what the code computes as long
    as the results stay below \<open>2^53\<close>; the sign of zero is not kept.
  \<^item> Text is a list of 8-bit characters, each the code unit of that number (Latin-1);
    text with other code units is outside the model. Two letters have an upper case
    beyond these characters (U+00B5 and U+00FF) and are left as they are.
  \<^item> The global objects \<open>cpu\<close>, \<open>memory\<close> and \<open>state\<close> are one record \<open>machine\<close> that every
    operation takes and returns. The field \<open>speed\<close> and the animation handle only pace the
    calls of \<open>step\<close> and are left out.
  \<^item> \<open>EventBus.emit\<close> calls the listeners of the module at once, and the page is taken
    to show the registers. The listeners change the display only, with one exception
    that the model keeps: \<open>updateRegister\<close> calls \<open>value.toString()\<close> on a new value of
    \<open>IR\<close>, which throws when the value is \<open>undefined\<close> (as \<open>updateMemoryCell\<close> does for
    an \<open>undefined\<close> cell that the page shows); the exception leaves \<open>fetch\<close> and \<open>step\<close> at
    that point. In \<open>execute\<close> no listener throws as long as the cells 0 to 99 and \<open>AC\<close> are
    defined, as they are in every machine reached from the initial one. The output
    console is kept as the list of the severities logged, without the message text.
  \<^item> \<open>prompt\<close> is a parameter of \<open>execute\<close> and \<open>step\<close>: the answer the user would give,
    \<open>None\<close> when the dialogue is cancelled.
\<close>

subsection \<open>JavaScript values\<close>

datatype jsval = Num int | NaN | Undefined

text \<open>\<open>a + b\<close> and \<open>a - b\<close> on numbers; \<open>undefined\<close> converts to \<open>NaN\<close>.\<close>

fun js_add :: "jsval \<Rightarrow> jsval \<Rightarrow> jsval" where
  "js_add (Num a) (Num b) = Num (a + b)"
| "js_add _ _ = NaN"

fun js_sub :: "jsval \<Rightarrow> jsval \<Rightarrow> jsval" where
  "js_sub (Num a) (Num b) = Num (a - b)"
| "js_sub _ _ = NaN"

text \<open>The relational operators are false as soon as one side is \<open>NaN\<close> or \<open>undefined\<close>.\<close>

fun js_lt :: "jsval \<Rightarrow> jsval \<Rightarrow> bool" where
  "js_lt (Num a) (Num b) = (a < b)"
| "js_lt _ _ = False"

fun js_gt :: "jsval \<Rightarrow> jsval \<Rightarrow> bool" where
  "js_gt (Num a) (Num b) = (a > b)"
| "js_gt _ _ = False"

fun js_ge :: "jsval \<Rightarrow> jsval \<Rightarrow> bool" where
  "js_ge (Num a) (Num b) = (a \<ge> b)"
| "js_ge _ _ = False"

fun js_le :: "jsval \<Rightarrow> jsval \<Rightarrow> bool" where
  "js_le (Num a) (Num b) = (a \<le> b)"
| "js_le _ _ = False"

text \<open>
  \<open>a % b\<close> on integers takes the sign of the dividend (it truncates towards zero), unlike
  \<open>mod\<close> of HOL, which takes the sign of the divisor; \<open>a % 0\<close> is \<open>NaN\<close>.
\<close>

definition int_rem :: "int \<Rightarrow> int \<Rightarrow> int" where
  "int_rem a b = (if a < 0 then - ((- a) mod \<bar>b\<bar>) else a mod \<bar>b\<bar>)"

fun js_rem :: "jsval \<Rightarrow> jsval \<Rightarrow> jsval" where
  "js_rem (Num a) (Num b) = (if b = 0 then NaN else Num (int_rem a b))"
| "js_rem _ _ = NaN"

text \<open>\<open>Math.abs(x)\<close>\<close>

fun js_abs :: "jsval \<Rightarrow> jsval" where
  "js_abs (Num a) = Num \<bar>a\<bar>"
| "js_abs _ = NaN"

text \<open>
  \<open>Math.floor(x / 100)\<close> on a non-negative integer or \<open>NaN\<close>. The quotient of two doubles
  is the double nearest to the exact quotient, ties going to the even significand of 53
  bits. Below \<open>2^53\<close> the floor of that double is the integer quotient. From \<open>2^53\<close> on,
  with \<open>2^e\<close> the greatest power of two not above the quotient, the double is the
  multiple of \<open>2^(e - 52)\<close> nearest to the quotient.
\<close>

definition round_half_even :: "int \<Rightarrow> int \<Rightarrow> int" where
  "round_half_even n d =
     (let k = n div d; r = n mod d
      in if 2 * r < d then k else if 2 * r > d then k + 1
         else if even k then k else k + 1)"

function bit_length :: "int \<Rightarrow> nat" where
  "bit_length n = (if n \<le> 0 then 0 else Suc (bit_length (n div 2)))"
  by pat_completeness auto
termination
  by (relation "measure nat") auto

declare bit_length.simps [simp del]

definition double_floor_div100 :: "int \<Rightarrow> int" where
  "double_floor_div100 a =
     (if a < 2 ^ 53 then a div 100
      else let e = bit_length (a div 100) - 1
           in if e \<le> 52
              then round_half_even (a * 2 ^ (52 - e)) 100 div 2 ^ (52 - e)
              else round_half_even a (100 * 2 ^ (e - 52)) * 2 ^ (e - 52))"

fun js_floor_div100 :: "jsval \<Rightarrow> jsval" where
  "js_floor_div100 (Num a) = Num (double_floor_div100 a)"
| "js_floor_div100 _ = NaN"

fun js_isNaN :: "jsval \<Rightarrow> bool" where
  "js_isNaN (Num a) = False"
| "js_isNaN _ = True"

subsection \<open>Strings\<close>

text \<open>
  White space for \<open>trim\<close>, the class \<open>\s\<close> and \<open>parseInt\<close>: tab, line feed, vertical tab,
  form feed, carriage return, space and the no-break space U+00A0.
\<close>

definition is_ws :: "char \<Rightarrow> bool" where
  "is_ws c = (c = CHR '' '' \<or> c = CHR 0x09 \<or> c = CHR 0x0A \<or> c = CHR 0x0B
            \<or> c = CHR 0x0C \<or> c = CHR 0x0D \<or> c = CHR 0xA0)"

definition is_digit :: "char \<Rightarrow> bool" where
  "is_digit c = (48 \<le> (of_char c :: nat) \<and> (of_char c :: nat) \<le> 57)"

definition digit_val :: "char \<Rightarrow> int" where
  "digit_val c = int (of_char c) - 48"

text \<open>\<open>s.trim()\<close>\<close>

definition trim :: "string \<Rightarrow> string" where
  "trim s = rev (dropWhile is_ws (rev (dropWhile is_ws s)))"

text \<open>\<open>s.startsWith(p)\<close>\<close>

definition startsWith :: "string \<Rightarrow> string \<Rightarrow> bool" where
  "startsWith s p = (take (length p) s = p)"

text \<open>
  \<open>s.toUpperCase()\<close>: the letters \<open>a\<close> to \<open>z\<close> and U+00E0 to U+00FE without the division
  sign U+00F7 move down by 32, and the sharp s U+00DF becomes \<open>SS\<close>.
\<close>

definition upper_chars :: "char \<Rightarrow> string" where
  "upper_chars c =
     (let n = (of_char c :: nat) in
      if 97 \<le> n \<and> n \<le> 122 then [char_of (n - 32)]
      else if n = 223 then ''SS''
      else if 224 \<le> n \<and> n \<le> 254 \<and> n \<noteq> 247 then [char_of (n - 32)]
      else [c])"

definition toUpperCase :: "string \<Rightarrow> string" where
  "toUpperCase s = concat (map upper_chars s)"

text \<open>\<open>code.split("\n")\<close>: the lines of a text; a text without newline is its only line.\<close>

fun split_newline :: "string \<Rightarrow> string list" where
  "split_newline [] = [[]]"
| "split_newline (c # cs) =
     (if c = CHR 0x0A then [] # split_newline cs
      else (case split_newline cs of
              [] \<Rightarrow> [[c]]
            | l # ls \<Rightarrow> (c # l) # ls))"

text \<open>
  \<open>s.split(sep)[0]\<close> for a non-empty separator: the text before the first occurrence of
  \<open>sep\<close>, all of \<open>s\<close> when there is none.
\<close>

fun split_first :: "string \<Rightarrow> string \<Rightarrow> string" where
  "split_first sep [] = []"
| "split_first sep (c # cs) =
     (if startsWith (c # cs) sep then [] else c # split_first sep cs)"

text \<open>
  \<open>s.split(/\s+/)\<close>: the pieces between maximal runs of white space. A text that starts or
  ends with white space has an empty first or last piece, as in JavaScript.
\<close>

function split_ws :: "string \<Rightarrow> string list" where
  "split_ws s =
     (let tok = takeWhile (\<lambda>c. \<not> is_ws c) s;
          rest = dropWhile (\<lambda>c. \<not> is_ws c) s
      in if rest = [] then [tok] else tok # split_ws (dropWhile is_ws rest))"
  by pat_completeness auto
termination
proof (relation "measure length")
  fix s tok rest
  assume r: "rest = dropWhile (\<lambda>c. \<not> is_ws c) s" and ne: "rest \<noteq> []"
  have "length (dropWhile is_ws rest) \<le> length rest"
    by (rule length_dropWhile_le)
  moreover have "length rest \<le> length s"
    unfolding r by (rule length_dropWhile_le)
  moreover have "is_ws (hd rest)"
    using ne hd_dropWhile[of "\<lambda>c. \<not> is_ws c" s] unfolding r by blast
  then have "length (dropWhile is_ws rest) < length rest"
    using ne by (cases rest) (auto intro: le_imp_less_Suc length_dropWhile_le)
  ultimately show "(dropWhile is_ws rest, s) \<in> measure length"
    by simp
qed simp

declare split_ws.simps [simp del]

text \<open>The test \<open>/^-?\d+$/\<close>: an optional minus sign and one digit or more, nothing else.\<close>

definition is_int_literal :: "string \<Rightarrow> bool" where
  "is_int_literal s =
     (let ds = (case s of [] \<Rightarrow> [] | c # cs \<Rightarrow> if c = CHR ''-'' then cs else s)
      in ds \<noteq> [] \<and> list_all is_digit ds)"

text \<open>
  \<open>parseInt(s, 10)\<close>: leading white space is skipped, then an optional sign, then the
  longest run of digits; what follows is ignored. Without a digit the result is \<open>NaN\<close>.
\<close>

definition digits_value :: "string \<Rightarrow> int" where
  "digits_value ds = foldl (\<lambda>acc c. 10 * acc + digit_val c) 0 ds"

definition parseInt :: "string \<Rightarrow> jsval" where
  "parseInt s =
     (let t = dropWhile is_ws s;
          neg = (t \<noteq> [] \<and> hd t = CHR ''-'');
          u = (if t \<noteq> [] \<and> (hd t = CHR ''-'' \<or> hd t = CHR ''+'') then tl t else t);
          ds = takeWhile is_digit u
      in if ds = [] then NaN
         else Num (if neg then - digits_value ds else digits_value ds))"

text \<open>
  The decimal numeral of a natural number, as a template literal prints it: the digits
  of the quotient by ten, if there is one, then the last digit.
\<close>

definition digit_char :: "nat \<Rightarrow> char" where
  "digit_char d = char_of (of_char (CHR ''0'') + d)"

fun decimal :: "nat \<Rightarrow> string" where
  "decimal n =
     (if n div 10 = 0 then [digit_char n]
      else decimal (n div 10) @ [digit_char (n mod 10)])"

declare decimal.simps [simp del]

subsection \<open>The assembler\<close>

text \<open>The table \<open>OPCODES\<close>; \<open>hasOwnProperty\<close> and the lookup are \<open>map_of\<close>.\<close>

definition OPCODES :: "(string \<times> int) list" where
  "OPCODES =
     [(''HALT'', 0), (''HLT'', 0), (''COB'', 0), (''ADD'', 1), (''SUB'', 2),
      (''STORE'', 3), (''STO'', 3), (''STA'', 3), (''NOP'', 4), (''NUL'', 4),
      (''LOAD'', 5), (''LDA'', 5), (''BRANCH'', 6), (''BR'', 6), (''BRU'', 6),
      (''JMP'', 6), (''BRZ'', 7), (''BRP'', 8), (''IN'', 901), (''INP'', 901),
      (''OUT'', 902), (''PRN'', 902)]"

text \<open>An entry of the program table; \<open>line\<close> is the index of the source line, from 0.\<close>

record entry =
  address :: nat
  bytecode :: jsval
  line :: nat
  instruction :: string
  operand :: jsval

text \<open>
  The state of the loop of \<open>assembleProgram\<close>: the program table, the errors and the
  current load address.
\<close>

type_synonym asm_state = "entry list \<times> string list \<times> nat"

text \<open>
  The code text of a source line: the line trimmed, cut at the first \<open>//\<close> and trimmed,
  cut at the first \<open>;\<close> and trimmed. \<open>None\<close> where the loop skips the line (\<open>continue\<close>):
  a blank line, a comment line, or nothing left in front of the comment.
\<close>

definition codeOnly_of :: "string \<Rightarrow> string option" where
  "codeOnly_of raw =
     (let line = trim raw in
      if line = [] \<or> startsWith line ''//'' \<or> startsWith line '';'' then None
      else let c1 = trim (split_first ''//'' line) in
        if c1 = [] then None
        else let c2 = trim (split_first '';'' c1) in
          if c2 = [] then None else Some c2)"

text \<open>The message \<open>`Line ${i + 1}: Unknown instruction '${instruction}'`\<close>.\<close>

definition unknown_instruction_error :: "nat \<Rightarrow> string \<Rightarrow> string" where
  "unknown_instruction_error i instr =
     ''Line '' @ decimal (i + 1) @ '': Unknown instruction '' @ [CHR 0x27] @ instr
       @ [CHR 0x27]"

text \<open>The mnemonic of an instruction line, and its operand (\<open>0\<close> without a second token).\<close>

definition mnemonic_of :: "string \<Rightarrow> string" where
  "mnemonic_of codeOnly = (case split_ws codeOnly of [] \<Rightarrow> [] | p0 # _ \<Rightarrow> toUpperCase p0)"

definition operand_of :: "string \<Rightarrow> jsval" where
  "operand_of codeOnly =
     (case split_ws codeOnly of
        p0 # p1 # _ \<Rightarrow> if p1 = [] then Num 0 else parseInt p1
      | _ \<Rightarrow> Num 0)"

text \<open>The encoding of a known instruction.\<close>

definition encode :: "int \<Rightarrow> jsval \<Rightarrow> jsval" where
  "encode opcode opnd =
     (if opcode = 901 \<or> opcode = 902 then Num opcode
      else js_add (Num (opcode * 100)) (js_rem opnd (Num 100)))"

text \<open>The body of the loop over the lines, at line index \<open>i\<close>.\<close>

definition assembleLine :: "nat \<Rightarrow> string \<Rightarrow> asm_state \<Rightarrow> asm_state" where
  "assembleLine i raw st =
     (case st of (prog, errs, addr) \<Rightarrow>
      (case codeOnly_of raw of
         None \<Rightarrow> st
       | Some codeOnly \<Rightarrow>
           if startsWith codeOnly ''*'' then
             (case parseInt (drop 1 codeOnly) of
                Num newAddr \<Rightarrow>
                  if newAddr \<ge> 0 \<and> newAddr \<le> 99 then (prog, errs, nat newAddr) else st
              | _ \<Rightarrow> st)
           else if startsWith (toUpperCase codeOnly) ''DAT'' then
             (let dataValue = parseInt (trim (drop 3 codeOnly)) in
              if \<not> js_isNaN dataValue then
                (prog @ [\<lparr>address = addr, bytecode = dataValue, line = i,
                          instruction = ''DAT'', operand = dataValue\<rparr>], errs, addr + 1)
              else st)
           else if is_int_literal codeOnly then
             (let v = parseInt codeOnly in
              (prog @ [\<lparr>address = addr, bytecode = v, line = i,
                        instruction = ''DATA'', operand = v\<rparr>], errs, addr + 1))
           else
             (let instr = mnemonic_of codeOnly; opnd = operand_of codeOnly in
              case map_of OPCODES instr of
                None \<Rightarrow> (prog, errs @ [unknown_instruction_error i instr], addr)
              | Some opcode \<Rightarrow>
                  (prog @ [\<lparr>address = addr, bytecode = encode opcode opnd, line = i,
                            instruction = instr, operand = opnd\<rparr>], errs, addr + 1))))"

fun assembleLoop :: "nat \<Rightarrow> string list \<Rightarrow> asm_state \<Rightarrow> asm_state" where
  "assembleLoop i [] st = st"
| "assembleLoop i (l # ls) st = assembleLoop (i + 1) ls (assembleLine i l st)"

definition assembleLines :: "string list \<Rightarrow> entry list \<times> string list" where
  "assembleLines ls = (case assembleLoop 0 ls ([], [], 0) of (prog, errs, addr) \<Rightarrow> (prog, errs))"

definition assembleProgram :: "string \<Rightarrow> entry list \<times> string list" where
  "assembleProgram code = assembleLines (split_newline code)"

subsection \<open>The machine\<close>

datatype severity = LogInfo | LogSuccess | LogWarning | LogError

record machine =
  PC :: jsval
  AC :: jsval
  IR :: jsval
  MAR :: jsval
  MBR :: jsval
  Z :: bool
  N :: bool
  memory :: "jsval list"
  running :: bool
  halted :: bool
  error :: bool
  cycle :: nat
  program :: "entry list"
  currentLine :: int
  console :: "severity list"

text \<open>
  \<open>memory[a]\<close>: \<open>undefined\<close> outside the array. \<open>memory[a] = v\<close>: past the end the array
  grows, the cells in between being holes (they read \<open>undefined\<close>). An index that is not a
  natural number names a property beside the cells; the cells stay as they are. No such
  index reaches \<open>memory\<close> from \<open>step\<close> or \<open>loadProgram\<close>.
\<close>

fun mem_read :: "jsval list \<Rightarrow> jsval \<Rightarrow> jsval" where
  "mem_read m (Num i) = (if 0 \<le> i \<and> nat i < length m then m ! nat i else Undefined)"
| "mem_read m _ = Undefined"

fun mem_write :: "jsval list \<Rightarrow> jsval \<Rightarrow> jsval \<Rightarrow> jsval list" where
  "mem_write m (Num i) v =
     (if 0 \<le> i then
        (if nat i < length m then m[nat i := v]
         else m @ replicate (nat i - length m) Undefined @ [v])
      else m)"
| "mem_write m _ v = m"

text \<open>
  The module as created, before \<open>init\<close> logs its greeting: all registers zero, both flags
  false, 256 words of memory.
\<close>

definition init_machine :: machine where
  "init_machine =
     \<lparr>PC = Num 0, AC = Num 0, IR = Num 0, MAR = Num 0, MBR = Num 0, Z = False, N = False,
      memory = replicate 256 (Num 0), running = False, halted = False, error = False,
      cycle = 0, program = [], currentLine = - 1, console = []\<rparr>"

text \<open>
  \<open>fetch\<close> announces every register it writes and the cell it reads, and \<open>emit\<close> does
  not catch what a listener throws. When the word fetched is \<open>undefined\<close>, a listener
  throws a \<open>TypeError\<close> at \<open>value.toString()\<close>: the one of \<open>vvm:memory-read\<close> for an address
  among the cells 0 to 99 that the page shows, before \<open>IR\<close> is written; else the one of
  \<open>vvm:register-change\<close>, for the new value of \<open>IR\<close>. \<open>Inl\<close> is the machine at the
  exception (\<open>PC\<close> not yet incremented), \<open>Inr\<close> the machine after a fetch that returns.
\<close>

definition shown_cell :: "jsval \<Rightarrow> bool" where
  "shown_cell a = (case a of Num i \<Rightarrow> 0 \<le> i \<and> i < 100 | _ \<Rightarrow> False)"

definition fetch :: "machine \<Rightarrow> machine + machine" where
  "fetch s =
     (let s1 = s\<lparr>MAR := PC s\<rparr>;
          s2 = s1\<lparr>MBR := mem_read (memory s1) (MAR s1)\<rparr>
      in if MBR s2 = Undefined \<and> shown_cell (MAR s2) then Inl s2
         else let s3 = s2\<lparr>IR := MBR s2\<rparr>
              in if IR s3 = Undefined then Inl s3
                 else Inr (s3\<lparr>PC := js_add (PC s3) (Num 1)\<rparr>))"

definition decode :: "jsval \<Rightarrow> jsval \<times> jsval" where
  "decode w =
     (if w = Num 901 \<or> w = Num 902 then (w, Num 0)
      else (js_rem (js_floor_div100 (js_abs w)) (Num 10), js_rem (js_abs w) (Num 100)))"

text \<open>The test \<open>cpu.AC < -999 || cpu.AC > 999\<close>.\<close>

definition overflows :: "jsval \<Rightarrow> bool" where
  "overflows v = (js_lt v (Num (- 999)) \<or> js_gt v (Num 999))"

text \<open>The flag update \<open>cpu.Z = cpu.AC === 0; cpu.N = cpu.AC < 0\<close>.\<close>

definition set_flags :: "machine \<Rightarrow> machine" where
  "set_flags s = s\<lparr>Z := (AC s = Num 0), N := js_lt (AC s) (Num 0)\<rparr>"

text \<open>
  \<open>execute\<close> returns the severity of its message with the new machine; \<open>inp\<close> is the answer
  of \<open>prompt\<close>, read by opcode 901 only.
\<close>

definition execute :: "jsval \<Rightarrow> jsval \<Rightarrow> string option \<Rightarrow> machine \<Rightarrow> severity \<times> machine" where
  "execute opcode opnd inp s =
     (if opcode = Num 0 then (LogSuccess, s\<lparr>halted := True\<rparr>)
      else if opcode = Num 1 then
        (let s1 = s\<lparr>MAR := opnd\<rparr>;
             s2 = s1\<lparr>MBR := mem_read (memory s1) (MAR s1)\<rparr>;
             s3 = s2\<lparr>AC := js_add (AC s2) (MBR s2)\<rparr>
         in if overflows (AC s3) then (LogError, s3\<lparr>error := True\<rparr>)
            else (LogInfo, set_flags s3))
      else if opcode = Num 2 then
        (let s1 = s\<lparr>MAR := opnd\<rparr>;
             s2 = s1\<lparr>MBR := mem_read (memory s1) (MAR s1)\<rparr>;
             s3 = s2\<lparr>AC := js_sub (AC s2) (MBR s2)\<rparr>
         in if overflows (AC s3) then (LogError, s3\<lparr>error := True\<rparr>)
            else (LogInfo, set_flags s3))
      else if opcode = Num 3 then
        (let s1 = s\<lparr>MAR := opnd\<rparr>;
             s2 = s1\<lparr>MBR := AC s1\<rparr>
         in (LogInfo, s2\<lparr>memory := mem_write (memory s2) (MAR s2) (MBR s2)\<rparr>))
      else if opcode = Num 4 then (LogInfo, s)
      else if opcode = Num 5 then
        (let s1 = s\<lparr>MAR := opnd\<rparr>;
             s2 = s1\<lparr>MBR := mem_read (memory s1) (MAR s1)\<rparr>;
             s3 = s2\<lparr>AC := MBR s2\<rparr>
         in (LogInfo, set_flags s3))
      else if opcode = Num 6 then (LogWarning, s\<lparr>PC := opnd\<rparr>)
      else if opcode = Num 7 then
        (if Z s \<or> AC s = Num 0 then (LogWarning, s\<lparr>PC := opnd\<rparr>) else (LogInfo, s))
      else if opcode = Num 8 then
        (if js_ge (AC s) (Num 0) then (LogWarning, s\<lparr>PC := opnd\<rparr>) else (LogInfo, s))
      else if opcode = Num 901 then
        (case inp of
           Some inputValue \<Rightarrow>
             (let val = parseInt inputValue in
              if \<not> js_isNaN val \<and> js_ge val (Num (- 999)) \<and> js_le val (Num 999)
              then (LogInfo, set_flags (s\<lparr>AC := val\<rparr>))
              else (LogError, s\<lparr>error := True\<rparr>))
         | None \<Rightarrow> (LogError, s\<lparr>error := True\<rparr>))
      else if opcode = Num 902 then (LogSuccess, s)
      else (LogError, s\<lparr>error := True\<rparr>))"

text \<open>
  One cycle of \<open>step\<close> up to and including the update of \<open>currentLine\<close>: count the cycle,
  fetch, decode, execute, log the message, look the executed address up in the table.
  \<open>Inl\<close> is the machine at the exception of a fetch that throws.
\<close>

definition cycle_body :: "machine \<Rightarrow> string option \<Rightarrow> machine + machine" where
  "cycle_body s inp =
     (let s1 = s\<lparr>cycle := cycle s + 1\<rparr>
      in case fetch s1 of
           Inl t \<Rightarrow> Inl t
         | Inr s2 \<Rightarrow>
             (let (opcode, opnd) = decode (IR s2);
                  (sev, s3) = execute opcode opnd inp s2;
                  s4 = s3\<lparr>console := console s3 @ [sev]\<rparr>
              in case find (\<lambda>p. Num (int (address p)) = js_sub (PC s4) (Num 1)) (program s4) of
                   Some e \<Rightarrow> Inr (s4\<lparr>currentLine := int (line e)\<rparr>)
                 | None \<Rightarrow> Inr s4))"

text \<open>The check \<open>cpu.PC >= state.program.length && !state.halted\<close> that ends \<open>step\<close>.\<close>

definition past_program :: "machine \<Rightarrow> bool" where
  "past_program s = (js_ge (PC s) (Num (int (length (program s)))) \<and> \<not> halted s)"

text \<open>
  The machine after a call of \<open>step\<close>. When the fetch throws, the exception leaves \<open>step\<close>
  with the machine as it is at that point: neither \<open>halted\<close> nor \<open>error\<close> is set.
\<close>

definition step :: "machine \<Rightarrow> string option \<Rightarrow> machine" where
  "step s inp =
     (if halted s \<or> error s then s
      else case cycle_body s inp of
             Inl t \<Rightarrow> t
           | Inr s5 \<Rightarrow>
               if past_program s5
               then s5\<lparr>halted := True, console := console s5 @ [LogWarning]\<rparr>
               else s5)"

text \<open>
  How a call of \<open>step\<close> ends: it returns \<open>undefined\<close> from a machine that has stopped, it
  throws, or it returns whether the machine may go on.
\<close>

datatype outcome = ReturnsUndefined | Throws | Returns bool

definition step_result :: "machine \<Rightarrow> string option \<Rightarrow> outcome" where
  "step_result s inp =
     (if halted s \<or> error s then ReturnsUndefined
      else case cycle_body s inp of
             Inl t \<Rightarrow> Throws
           | Inr s5 \<Rightarrow> Returns (\<not> halted (step s inp) \<and> \<not> error (step s inp)))"

text \<open>\<open>n\<close> calls of \<open>step\<close>; the \<open>k\<close>-th call (from 0) gets the answer \<open>inp k\<close>.\<close>

fun run :: "(nat \<Rightarrow> string option) \<Rightarrow> nat \<Rightarrow> machine \<Rightarrow> machine" where
  "run inp 0 s = s"
| "run inp (Suc n) s = step (run inp n s) (inp n)"

text \<open>\<open>reset\<close>: \<open>memory.fill(0)\<close> keeps the length of the array.\<close>

definition reset :: "machine \<Rightarrow> machine" where
  "reset s =
     \<lparr>PC = Num 0, AC = Num 0, IR = Num 0, MAR = Num 0, MBR = Num 0, Z = False, N = False,
      memory = map (\<lambda>_. Num 0) (memory s), running = False, halted = False, error = False,
      cycle = 0, program = [], currentLine = - 1, console = console s @ [LogInfo]\<rparr>"

text \<open>The words of a program table written into memory, in the order of the table.\<close>

definition write_program :: "jsval list \<Rightarrow> entry list \<Rightarrow> jsval list" where
  "write_program m prog = foldl (\<lambda>m e. mem_write m (Num (int (address e))) (bytecode e)) m prog"

text \<open>
  \<open>loadProgram\<close> on the text of the editor: with assembly errors it logs them, raises the
  error flag and returns \<open>false\<close>; else it writes the words and keeps the table.
\<close>

definition loadProgram :: "string \<Rightarrow> machine \<Rightarrow> bool \<times> machine" where
  "loadProgram code s =
     (case assembleProgram code of (prog, errs) \<Rightarrow>
        if length errs > 0 then
          (False, s\<lparr>error := True, console := console s @ map (\<lambda>_. LogError) errs\<rparr>)
        else
          (True, s\<lparr>memory := write_program (memory s) prog, program := prog,
                   console := console s @ [LogSuccess]\<rparr>))"

subsection \<open>Notions used by the properties\<close>

text \<open>
  A line that reaches the lookup of its mnemonic and fails it: it has code text, is no
  load directive, no data directive, no bare integer, and its first token in upper case
  is no key of \<open>OPCODES\<close>.
\<close>

definition unknown_mnemonic_line :: "string \<Rightarrow> bool" where
  "unknown_mnemonic_line raw =
     (case codeOnly_of raw of
        None \<Rightarrow> False
      | Some c \<Rightarrow> \<not> startsWith c ''*'' \<and> \<not> startsWith (toUpperCase c) ''DAT''
                 \<and> \<not> is_int_literal c \<and> map_of OPCODES (mnemonic_of c) = None)"

definition line_mnemonic :: "string \<Rightarrow> string" where
  "line_mnemonic raw = (case codeOnly_of raw of None \<Rightarrow> [] | Some c \<Rightarrow> mnemonic_of c)"

text \<open>
  The operations that change the machine: a call of \<open>step\<close> (with the answer a prompt
  would get), \<open>reset\<close>, or \<open>loadProgram\<close> on the text in the editor. The handlers of the
  page call them in some order (\<open>singleStep\<close> and \<open>run\<close> load only while the program table
  is empty), so every state the page can reach is \<open>perform_all acts init_machine\<close> for some
  list \<open>acts\<close>.
\<close>

datatype action = DoStep "string option" | DoReset | DoLoad string

fun perform :: "machine \<Rightarrow> action \<Rightarrow> machine" where
  "perform s (DoStep inp) = step s inp"
| "perform s DoReset = reset s"
| "perform s (DoLoad code) = snd (loadProgram code s)"

definition perform_all :: "action list \<Rightarrow> machine \<Rightarrow> machine" where
  "perform_all acts s = foldl perform s acts"

text \<open>The flag relations: both flags describe \<open>AC\<close>; the weaker one lets \<open>Z\<close> lag behind.\<close>

definition flags_exact :: "machine \<Rightarrow> bool" where
  "flags_exact s = ((Z s \<longleftrightarrow> AC s = Num 0) \<and> (N s \<longleftrightarrow> js_lt (AC s) (Num 0)))"

definition flags_sound :: "machine \<Rightarrow> bool" where
  "flags_sound s = ((Z s \<longrightarrow> AC s = Num 0) \<and> (N s \<longleftrightarrow> js_lt (AC s) (Num 0)))"

text \<open>The instruction word the next cycle fetches, and its decoded opcode.\<close>

definition next_word :: "machine \<Rightarrow> jsval" where
  "next_word s = mem_read (memory s) (PC s)"

definition next_opcode :: "machine \<Rightarrow> jsval" where
  "next_opcode s = fst (decode (next_word s))"


text \<open>A prompt that is always cancelled.\<close>

definition no_input :: "nat \<Rightarrow> string option" where
  "no_input k = None"

text \<open>Texts and machines of the examples.\<close>

definition newline :: string where
  "newline = [CHR 0x0A]"

definition unlines :: "string list \<Rightarrow> string" where
  "unlines ls = (case ls of [] \<Rightarrow> [] | l # rest \<Rightarrow> l @ concat (map (\<lambda>x. newline @ x) rest))"

definition loaded :: "string \<Rightarrow> machine" where
  "loaded code = snd (loadProgram code init_machine)"


text \<open>
  A call of \<open>step\<close> on a running machine throws exactly when the word to fetch is
  \<open>undefined\<close>; \<open>aborted\<close> is the machine it then leaves, \<open>fetched\<close> the machine after a
  fetch that returns.
\<close>

definition fetch_throws :: "machine \<Rightarrow> bool" where
  "fetch_throws s = (mem_read (memory s) (PC s) = Undefined)"

definition aborted :: "machine \<Rightarrow> machine" where
  "aborted s =
     (if shown_cell (PC s) then s\<lparr>cycle := cycle s + 1, MAR := PC s, MBR := Undefined\<rparr>
      else s\<lparr>cycle := cycle s + 1, MAR := PC s, MBR := Undefined, IR := Undefined\<rparr>)"

definition fetched :: "machine \<Rightarrow> machine" where
  "fetched s =
     s\<lparr>MAR := PC s, MBR := mem_read (memory s) (PC s), IR := mem_read (memory s) (PC s),
       PC := js_add (PC s) (Num 1)\<rparr>"

text \<open>
  The machine after the fetch, decode and execute phases of a cycle whose fetch returns,
  before the message is logged and the source line is looked up; and the machine after
  these two, before the check that ends \<open>step\<close>.
\<close>

definition exec_part :: "machine \<Rightarrow> string option \<Rightarrow> machine" where
  "exec_part s inp =
     (let s2 = fetched (s\<lparr>cycle := cycle s + 1\<rparr>)
      in snd (execute (fst (decode (IR s2))) (snd (decode (IR s2))) inp s2))"

definition completed_cycle :: "machine \<Rightarrow> string option \<Rightarrow> machine" where
  "completed_cycle s inp =
     (let s2 = fetched (s\<lparr>cycle := cycle s + 1\<rparr>);
          r = execute (fst (decode (IR s2))) (snd (decode (IR s2))) inp s2;
          s4 = (snd r)\<lparr>console := console (snd r) @ [fst r]\<rparr>
      in case find (\<lambda>p. Num (int (address p)) = js_sub (PC s4) (Num 1)) (program s4) of
           Some e \<Rightarrow> s4\<lparr>currentLine := int (line e)\<rparr>
         | None \<Rightarrow> s4)"

text \<open>
  A program whose second instruction overflows: 600 is loaded and added to itself. The
  machine \<open>overflow_machine\<close> is the one about to execute the ADD.
\<close>

definition overflow_text :: string where
  "overflow_text = unlines [''LDA 3'', ''ADD 3'', ''HLT'', ''DAT 600'']"

definition overflow_machine :: machine where
  "overflow_machine = step (loaded overflow_text) None"

text \<open>A program of one NOP, and one of a NOP followed by HLT.\<close>

definition nop_text :: string where
  "nop_text = ''NOP''"

definition nop_hlt_text :: string where
  "nop_hlt_text = unlines [''NOP'', ''HLT'']"

text \<open>
  The word that a program table leaves at an address (that of its last entry there), and
  one more than the highest address it writes.
\<close>

fun last_write :: "entry list \<Rightarrow> nat \<Rightarrow> jsval option" where
  "last_write [] i = None"
| "last_write (e # p) i =
     (case last_write p i of
        Some v \<Rightarrow> Some v
      | None \<Rightarrow> if address e = i then Some (bytecode e) else None)"

fun extent :: "entry list \<Rightarrow> nat" where
  "extent [] = 0"
| "extent (e # p) = max (address e + 1) (extent p)"

text \<open>
  A program that loads 600 and subtracts it again; a program whose first instruction
  subtracts 2000 from the initial accumulator; two programs loaded one after the other.
\<close>

definition flags_text :: string where
  "flags_text = unlines [''LDA 3'', ''SUB 3'', ''HLT'', ''DAT 600'']"

definition stale_text :: string where
  "stale_text = unlines [''SUB 2'', ''HLT'', ''DAT 2000'']"

definition first_text :: string where
  "first_text = unlines [''DAT 7'', ''DAT 8'']"

definition second_text :: string where
  "second_text = ''DAT 1''"


text \<open>A program that writes address 0 twice.\<close>

definition twice_text :: string where
  "twice_text = unlines [''DAT 7'', ''*0'', ''DAT 9'']"

section \<open>Properties\<close>

subsection \<open>Decoding and encoding\<close>

lemma decode_Num:
  assumes "\<bar>w\<bar> < 2 ^ 53"
  shows "decode (Num w) =
     (if w = 901 \<or> w = 902 then (Num w, Num 0)
      else (Num ((\<bar>w\<bar> div 100) mod 10), Num (\<bar>w\<bar> mod 100)))"
proof -
  have "0 \<le> \<bar>w\<bar> div 100" by (simp add: pos_imp_zdiv_nonneg_iff)
  then show ?thesis
    using assms by (simp add: decode_def int_rem_def double_floor_div100_def)
qed

lemma decode_cases:
  obtains (num) k a where "decode w = (Num k, Num a)" "0 \<le> a" "a < 100"
  | (nan) "decode w = (NaN, NaN)"
proof (cases w)
  case (Num x)
  have r: "0 \<le> int_rem \<bar>x\<bar> 100 \<and> int_rem \<bar>x\<bar> 100 < 100"
    by (simp add: int_rem_def)
  show ?thesis
  proof (rule num)
    show "decode w = (Num (if x = 901 \<or> x = 902 then x
                          else int_rem (double_floor_div100 \<bar>x\<bar>) 10),
                     Num (if x = 901 \<or> x = 902 then 0 else int_rem \<bar>x\<bar> 100))"
      unfolding Num by (simp add: decode_def)
  qed (use r in simp_all)
next
  case NaN
  then show ?thesis using nan by (simp add: decode_def)
next
  case Undefined
  then show ?thesis using nan by (simp add: decode_def)
qed

text \<open>
  C7, as amended. For an integer word \<open>w\<close> of magnitude below \<open>2^53\<close>, \<open>decode\<close> gives opcode
  \<open>w\<close> and operand 0 when \<open>w\<close> is 901 or 902, and else opcode \<open>(|w| div 100) mod 10\<close> and
  operand \<open>|w| mod 100\<close>. Such a word, when negative and other than \<open>-901\<close> and \<open>-902\<close>,
  decodes as its absolute value does.
\<close>

theorem decode_spec:
  assumes "\<bar>w\<bar> < 2 ^ 53"
  shows "decode (Num w) =
     (if w = 901 \<or> w = 902 then (Num w, Num 0)
      else (Num ((\<bar>w\<bar> div 100) mod 10), Num (\<bar>w\<bar> mod 100)))
   \<and> (w < 0 \<and> w \<noteq> - 901 \<and> w \<noteq> - 902 \<longrightarrow> decode (Num w) = decode (Num \<bar>w\<bar>))"
proof -
  have "w < 0 \<and> w \<noteq> - 901 \<and> w \<noteq> - 902 \<longrightarrow> decode (Num w) = decode (Num \<bar>w\<bar>)"
    by (auto simp: decode_def)
  with decode_Num [OF assms] show ?thesis by blast
qed

theorem decode_spec_witness:
  "\<bar>- 510 :: int\<bar> < 2 ^ 53 \<and> (- 510 :: int) < 0
   \<and> decode (Num (- 510)) = decode (Num \<bar>- 510\<bar>)
   \<and> decode (Num (- 510)) = (Num 5, Num 10)"
proof -
  have b: "\<bar>- 510 :: int\<bar> < 2 ^ 53" by simp
  show ?thesis using decode_spec [OF b] b by auto
qed

text \<open>
  C7 as stated fails in two ways. The words \<open>-901\<close> and \<open>-902\<close> do not decode as 901 and
  902 do, since only the two positive words are matched before the absolute value is
  taken. And the quotient by 100 is a division of doubles: for the word
  \<open>1000000000000000128\<close> (a double, loaded by a DAT line) it rounds to
  \<open>10000000000000002\<close>, so the opcode is 2 where \<open>(|w| div 100) mod 10\<close> is 1.
\<close>

theorem decode_negative_counterexample:
  "decode (Num (- 901)) = (Num 9, Num 1) \<and> decode (Num \<bar>- 901\<bar>) = (Num 901, Num 0)
   \<and> decode (Num 1000000000000000128) = (Num 2, Num 28)
   \<and> (\<bar>1000000000000000128\<bar> div 100) mod 10 = (1 :: int)"
  by code_simp

text \<open>
  C6 at the line \<open>ADD -5\<close>: the assembler emits the word 95, because \<open>%\<close> keeps the sign of
  the operand, where \<open>1 * 100 + (-5 mod 100)\<close> is 195; the word 95 decodes as opcode 0
  (HALT), not as ADD.
\<close>

theorem encode_negative_operand:
  "assembleProgram ''ADD -5'' =
     ([\<lparr>address = 0, bytecode = Num 95, line = 0, instruction = ''ADD'',
        operand = Num (- 5)\<rparr>], [])
   \<and> (1 * 100 + (- 5) mod 100 = (195 :: int))
   \<and> decode (Num 95) = (Num 0, Num 95)"
  by code_simp

text \<open>On operands that are not negative the encoding is the one with \<open>mod\<close>.\<close>

lemma encode_nonneg:
  "0 \<le> n \<Longrightarrow> k \<noteq> 901 \<Longrightarrow> k \<noteq> 902 \<Longrightarrow> encode k (Num n) = Num (k * 100 + n mod 100)"
  by (simp add: encode_def int_rem_def)

subsection \<open>Lines of the assembler\<close>

lemma star_not_dat:
  assumes "startsWith (toUpperCase c) ''DAT''"
  shows "\<not> startsWith c ''*''"
proof
  assume "startsWith c ''*''"
  then obtain cs where c: "c = CHR ''*'' # cs"
    by (cases c) (auto simp: startsWith_def)
  have "upper_chars (CHR ''*'') = ''*''"
    by (simp add: upper_chars_def)
  with assms c show False
    by (simp add: startsWith_def toUpperCase_def)
qed

text \<open>
  C10. A line whose code text starts with DAT in any letter case is a data directive:
  when \<open>parseInt\<close> of the rest gives \<open>NaN\<close> the line leaves program, errors and load
  address as they were; else it emits one word. In both cases no error is appended.
\<close>

theorem dat_line_never_errors:
  assumes "codeOnly_of raw = Some c" and "startsWith (toUpperCase c) ''DAT''"
  shows "assembleLine i raw (prog, errs, addr) =
           (if js_isNaN (parseInt (trim (drop 3 c))) then (prog, errs, addr)
            else (prog @ [\<lparr>address = addr, bytecode = parseInt (trim (drop 3 c)), line = i,
                            instruction = ''DAT'', operand = parseInt (trim (drop 3 c))\<rparr>],
                  errs, addr + 1))"
  using assms star_not_dat [OF assms(2)]
  by (simp add: assembleLine_def Let_def)

theorem dat_line_never_errors_witness:
  "codeOnly_of ''DATABASE 5'' = Some ''DATABASE 5''
   \<and> startsWith (toUpperCase ''DATABASE 5'') ''DAT''
   \<and> assembleLine 0 ''DATABASE 5'' ([], [], 0) = ([], [], 0)"
proof -
  have h1: "codeOnly_of ''DATABASE 5'' = Some ''DATABASE 5''" by code_simp
  have h2: "startsWith (toUpperCase ''DATABASE 5'') ''DAT''" by code_simp
  have h3: "js_isNaN (parseInt (trim (drop 3 ''DATABASE 5'')))" by code_simp
  show ?thesis
    using dat_line_never_errors [OF h1 h2, of 0 "[]" "[]" 0] h1 h2 h3 by simp
qed

subsection \<open>Fields of the machine along a cycle\<close>

lemma step_stopped: "halted s \<or> error s \<Longrightarrow> step s inp = s"
  by (simp add: step_def)

lemma run_stopped: "halted s \<or> error s \<Longrightarrow> run inp n s = s"
  by (induction n) (simp_all add: step_stopped)


lemma fetch_throws_next_word: "fetch_throws s \<longleftrightarrow> next_word s = Undefined"
  by (simp add: fetch_throws_def next_word_def)

lemma fetch_eq:
  "fetch s =
     (if fetch_throws s
      then Inl (if shown_cell (PC s) then s\<lparr>MAR := PC s, MBR := Undefined\<rparr>
                else s\<lparr>MAR := PC s, MBR := Undefined, IR := Undefined\<rparr>)
      else Inr (fetched s))"
  by (simp add: fetch_def fetched_def fetch_throws_def Let_def)

lemma cycle_body_eq:
  "cycle_body s inp =
     (if fetch_throws s then Inl (aborted s) else Inr (completed_cycle s inp))"
  by (simp add: cycle_body_def completed_cycle_def fetch_eq fetch_throws_def aborted_def
        Let_def case_prod_beta split: option.split)

lemma step_aborted:
  "\<not> halted s \<Longrightarrow> \<not> error s \<Longrightarrow> fetch_throws s \<Longrightarrow> step s inp = aborted s"
  by (simp add: step_def cycle_body_eq)

lemma step_completed:
  assumes "\<not> halted s" "\<not> error s" "\<not> fetch_throws s"
  shows "step s inp =
     (if past_program (completed_cycle s inp)
      then (completed_cycle s inp)\<lparr>halted := True,
              console := console (completed_cycle s inp) @ [LogWarning]\<rparr>
      else completed_cycle s inp)"
  using assms by (simp add: step_def cycle_body_eq)

lemma decode_Undefined: "decode Undefined = (NaN, NaN)"
  by (simp add: decode_def)

lemma fetch_fields:
  "IR (fetched s) = mem_read (memory s) (PC s)"
  "PC (fetched s) = js_add (PC s) (Num 1)"
  "AC (fetched s) = AC s" "Z (fetched s) = Z s" "N (fetched s) = N s"
  "memory (fetched s) = memory s" "halted (fetched s) = halted s" "error (fetched s) = error s"
  "program (fetched s) = program s" "console (fetched s) = console s"
  "cycle (fetched s) = cycle s"
  by (simp_all add: fetched_def)

lemma execute_program: "program (snd (execute k a inp s)) = program s"
  by (simp add: execute_def Let_def set_flags_def split: option.split)

lemma execute_console: "console (snd (execute k a inp s)) = console s"
  by (simp add: execute_def Let_def set_flags_def split: option.split)

lemma execute_memory_length:
  assumes "a = Num i" "0 \<le> i" "i < 100" "100 \<le> length (memory s)"
  shows "length (memory (snd (execute k a inp s))) = length (memory s)"
proof -
  have "nat i < length (memory s)" using assms by linarith
  then show ?thesis
    using assms(1,2) by (simp add: execute_def Let_def set_flags_def split: option.split)
qed

lemma execute_NaN: "execute NaN a inp s = (LogError, s\<lparr>error := True\<rparr>)"
  by (simp add: execute_def)


lemma cycle_body_fields:
  "PC (completed_cycle s inp) = PC (exec_part s inp)"
  "AC (completed_cycle s inp) = AC (exec_part s inp)"
  "Z (completed_cycle s inp) = Z (exec_part s inp)"
  "N (completed_cycle s inp) = N (exec_part s inp)"
  "memory (completed_cycle s inp) = memory (exec_part s inp)"
  "halted (completed_cycle s inp) = halted (exec_part s inp)"
  "error (completed_cycle s inp) = error (exec_part s inp)"
  "program (completed_cycle s inp) = program (exec_part s inp)"
  by (simp_all add: completed_cycle_def exec_part_def Let_def split: option.split)

lemma exec_part_program: "program (exec_part s inp) = program s"
  by (simp add: exec_part_def Let_def execute_program fetch_fields)

lemma step_fields:
  assumes "\<not> halted s" "\<not> error s" "\<not> fetch_throws s"
  shows "PC (step s inp) = PC (exec_part s inp)"
    "AC (step s inp) = AC (exec_part s inp)"
    "Z (step s inp) = Z (exec_part s inp)"
    "N (step s inp) = N (exec_part s inp)"
    "memory (step s inp) = memory (exec_part s inp)"
    "error (step s inp) = error (exec_part s inp)"
    "program (step s inp) = program s"
  using assms by (simp_all add: step_completed cycle_body_fields exec_part_program)


lemma exec_part_unfold:
  "exec_part s inp =
     snd (execute (fst (decode (next_word s))) (snd (decode (next_word s))) inp
            (fetched (s\<lparr>cycle := cycle s + 1\<rparr>)))"
  by (simp add: exec_part_def Let_def fetch_fields next_word_def)

subsection \<open>Overflow of the accumulator\<close>

lemma execute_overflow:
  assumes "k = 1 \<or> k = 2"
    and "v = (if k = 1 then js_add (AC s) (mem_read (memory s) a)
              else js_sub (AC s) (mem_read (memory s) a))"
    and "overflows v"
  shows "snd (execute (Num k) a inp s) =
           s\<lparr>MAR := a, MBR := mem_read (memory s) a, AC := v, error := True\<rparr>"
  using assms by (auto simp: execute_def Let_def)

text \<open>
  C1, as amended. When a running machine executes an ADD or a SUB whose result \<open>v\<close> fails
  the range test, the step raises the error flag, \<open>AC\<close> holds the out-of-range result \<open>v\<close>,
  the flags \<open>Z\<close> and \<open>N\<close> are as before, any number of further calls of \<open>step\<close> leaves the
  whole machine as it is, and \<open>reset\<close> clears the error.
\<close>

theorem overflow_freezes:
  assumes "\<not> halted s" and "\<not> error s"
    and "decode (next_word s) = (Num k, a)" and "k = 1 \<or> k = 2"
    and "v = (if k = 1 then js_add (AC s) (mem_read (memory s) a)
              else js_sub (AC s) (mem_read (memory s) a))"
    and "overflows v"
  shows "error (step s inp) \<and> AC (step s inp) = v
         \<and> Z (step s inp) = Z s \<and> N (step s inp) = N s
         \<and> run inps n (step s inp) = step s inp
         \<and> \<not> error (reset (step s inp))"
proof -
  let ?f = "fetched (s\<lparr>cycle := cycle s + 1\<rparr>)"
  have v: "v = (if k = 1 then js_add (AC ?f) (mem_read (memory ?f) a)
              else js_sub (AC ?f) (mem_read (memory ?f) a))"
    using assms(5) by (simp add: fetch_fields)
  have e: "exec_part s inp =
      ?f\<lparr>MAR := a, MBR := mem_read (memory ?f) a, AC := v, error := True\<rparr>"
    unfolding exec_part_unfold assms(3) fst_conv snd_conv
    by (rule execute_overflow [OF assms(4) v assms(6)])
  have nt: "\<not> fetch_throws s"
    using assms(3) by (auto simp: fetch_throws_next_word decode_Undefined)
  have err: "error (step s inp)"
    using assms(1,2) nt by (simp add: step_fields e)
  have "AC (step s inp) = v" "Z (step s inp) = Z s" "N (step s inp) = N s"
    using assms(1,2) nt by (simp_all add: step_fields e fetch_fields)
  moreover have "run inps n (step s inp) = step s inp"
    using err by (simp add: run_stopped)
  moreover have "\<not> error (reset (step s inp))"
    by (simp add: reset_def)
  ultimately show ?thesis using err by simp
qed

theorem overflow_freezes_witness:
  "\<not> halted overflow_machine \<and> \<not> error overflow_machine
   \<and> decode (next_word overflow_machine) = (Num 1, Num 3)
   \<and> overflows (Num 1200)
   \<and> error (step overflow_machine None) \<and> AC (step overflow_machine None) = Num 1200
   \<and> run no_input 3 (step overflow_machine None) = step overflow_machine None"
proof -
  have h1: "\<not> halted overflow_machine" by code_simp
  have h2: "\<not> error overflow_machine" by code_simp
  have h3: "decode (next_word overflow_machine) = (Num 1, Num 3)" by code_simp
  have h4: "(1::int) = 1 \<or> (1::int) = 2" by simp
  have h5: "Num 1200 = (if (1::int) = 1
               then js_add (AC overflow_machine) (mem_read (memory overflow_machine) (Num 3))
               else js_sub (AC overflow_machine) (mem_read (memory overflow_machine) (Num 3)))"
    by code_simp
  have h6: "overflows (Num 1200)" by (simp add: overflows_def)
  show ?thesis
    using overflow_freezes [OF h1 h2 h3 h4 h5 h6, of None no_input 3] h1 h2 h3 h6 by simp
qed

text \<open>
  C1 as stated fails: the out-of-range result is committed. With 600 in \<open>AC\<close>, the ADD of
  600 leaves 1200 in \<open>AC\<close> and raises the error flag.
\<close>

theorem overflow_committed_counterexample:
  "AC overflow_machine = Num 600 \<and> next_opcode overflow_machine = Num 1
   \<and> error (step overflow_machine None) \<and> AC (step overflow_machine None) = Num 1200"
  by code_simp

subsection \<open>Running off the program table\<close>

text \<open>
  C4, as amended. Take a step of a running machine whose cycle reaches the check that
  ends \<open>step\<close> (its fetch returns), and let \<open>e\<close> be the machine after the execute phase,
  not halted by it. The machine is halted by the check exactly when \<open>PC\<close> is at least the
  number of entries of the program table (\<open>state.program.length\<close>). The check only sets
  \<open>halted\<close> and logs a warning: the error flag is as execute left it, and the next call
  of \<open>step\<close> fetches nothing.
\<close>

theorem off_end_halts:
  assumes "\<not> halted s" and "\<not> error s"
    and "cycle_body s inp = Inr e"
    and "PC e = Num p" and "\<not> halted e"
  shows "(halted (step s inp) \<longleftrightarrow> int (length (program s)) \<le> p)
       \<and> (int (length (program s)) \<le> p \<longrightarrow>
            step s inp = e\<lparr>halted := True, console := console e @ [LogWarning]\<rparr>
          \<and> error (step s inp) = error e
          \<and> step (step s inp) inp' = step s inp)"
proof -
  have e: "e = completed_cycle s inp" and nt: "\<not> fetch_throws s"
    using assms(3) by (auto simp: cycle_body_eq split: if_splits)
  have pp: "past_program e \<longleftrightarrow> int (length (program s)) \<le> p"
    using assms(4,5) by (simp add: past_program_def e cycle_body_fields exec_part_program)
  have st: "step s inp =
      (if int (length (program s)) \<le> p
       then e\<lparr>halted := True, console := console e @ [LogWarning]\<rparr>
       else e)"
    using assms(1,2,3) pp by (simp add: step_def)
  have "halted (step s inp) \<longleftrightarrow> int (length (program s)) \<le> p"
    using assms(5) by (simp add: st)
  moreover have "step (step s inp) inp' = step s inp" if "int (length (program s)) \<le> p"
    using that by (simp add: st step_stopped)
  ultimately show ?thesis
    by (simp add: st)
qed

theorem off_end_halts_witness:
  "\<not> halted (loaded nop_text) \<and> \<not> error (loaded nop_text)
   \<and> cycle_body (loaded nop_text) None = Inr (completed_cycle (loaded nop_text) None)
   \<and> PC (completed_cycle (loaded nop_text) None) = Num 1
   \<and> \<not> halted (completed_cycle (loaded nop_text) None)
   \<and> int (length (program (loaded nop_text))) \<le> 1
   \<and> halted (step (loaded nop_text) None)
   \<and> \<not> error (step (loaded nop_text) None)
   \<and> step (step (loaded nop_text) None) None = step (loaded nop_text) None"
proof -
  let ?m = "loaded nop_text"
  have h1: "\<not> halted ?m" by code_simp
  have h2: "\<not> error ?m" by code_simp
  have nt: "\<not> fetch_throws ?m" by code_simp
  have h0: "cycle_body ?m None = Inr (completed_cycle ?m None)"
    using nt by (simp add: cycle_body_eq)
  have h3: "PC (completed_cycle ?m None) = Num 1" by code_simp
  have h4: "\<not> halted (completed_cycle ?m None)" by code_simp
  have h5: "int (length (program ?m)) \<le> 1" by code_simp
  have h6: "\<not> error (completed_cycle ?m None)" by code_simp
  note r = off_end_halts [OF h1 h2 h0 h3 h4, of None]
  from r h5 have a: "halted (step ?m None)" by blast
  from r h5 have b: "error (step ?m None) = error (completed_cycle ?m None)"
    by blast
  from r h5 have c: "step (step ?m None) None = step ?m None"
    by blast
  show ?thesis
    using h1 h2 h0 h3 h4 h5 h6 a b c by blast
qed

text \<open>
  C4 as stated fails: after the NOP of the program NOP, HLT the program counter is 1, the
  last loaded address, and the machine is not halted; the HLT at address 1 is still to
  be executed.
\<close>

theorem last_address_counterexample:
  "map address (program (step (loaded nop_hlt_text) None)) = [0, 1]
   \<and> PC (step (loaded nop_hlt_text) None) = Num 1
   \<and> \<not> halted (step (loaded nop_hlt_text) None)
   \<and> \<not> error (step (loaded nop_hlt_text) None)"
  by code_simp

subsection \<open>The length of memory\<close>

lemma length_mem_write_nat:
  "length (mem_write m (Num (int a)) v) = max (length m) (a + 1)"
  by (simp add: max_def)

lemma length_write_program_ge: "length m \<le> length (write_program m prog)"
  unfolding write_program_def
proof (induction prog arbitrary: m)
  case Nil
  show ?case by simp
next
  case (Cons e prog)
  have "length m \<le> length (mem_write m (Num (int (address e))) (bytecode e))"
    by (simp add: length_mem_write_nat)
  also have "\<dots> \<le> length (foldl (\<lambda>m e. mem_write m (Num (int (address e))) (bytecode e))
                        (mem_write m (Num (int (address e))) (bytecode e)) prog)"
    by (rule Cons.IH)
  finally show ?case by simp
qed

lemma length_write_program_same:
  "\<forall>e \<in> set prog. address e < length m \<Longrightarrow> length (write_program m prog) = length m"
  unfolding write_program_def
  by (induction prog arbitrary: m) simp_all

lemma step_memory_length:
  assumes "100 \<le> length (memory s)"
  shows "length (memory (step s inp)) = length (memory s)"
proof (cases "halted s \<or> error s")
  case True
  then show ?thesis by (simp add: step_stopped)
next
  case False
  show ?thesis
  proof (cases "fetch_throws s")
    case True
    with False show ?thesis by (simp add: step_aborted aborted_def)
  next
    case nt: False
    let ?f = "fetched (s\<lparr>cycle := cycle s + 1\<rparr>)"
    have len: "100 \<le> length (memory ?f)" using assms by (simp add: fetch_fields)
    have "length (memory (exec_part s inp)) = length (memory ?f)"
    proof (cases "next_word s" rule: decode_cases)
      case (num k a)
      then show ?thesis
        unfolding exec_part_unfold
        using execute_memory_length [OF refl num(2,3) len] by simp
    next
      case nan
      then show ?thesis
        unfolding exec_part_unfold by (simp add: execute_NaN)
    qed
    with False nt show ?thesis by (simp add: step_fields fetch_fields)
  qed
qed

text \<open>
  C3, as amended. Memory is created with 256 words. \<open>reset\<close> keeps its length, and so does
  \<open>step\<close> on a memory of 100 words or more (the operand of every decoded integer word lies
  in 0..99). \<open>loadProgram\<close> never shortens memory, and keeps its length when every entry
  of the program table has an address below that length.
\<close>

theorem memory_size_kept:
  "length (memory init_machine) = 256
   \<and> length (memory (reset s)) = length (memory s)
   \<and> (100 \<le> length (memory s) \<longrightarrow> length (memory (step s inp)) = length (memory s))
   \<and> length (memory s) \<le> length (memory (snd (loadProgram code s)))
   \<and> ((\<forall>e \<in> set (fst (assembleProgram code)). address e < length (memory s)) \<longrightarrow>
        length (memory (snd (loadProgram code s))) = length (memory s))
   \<and> (\<exists>k a. decode (Num w) = (Num k, Num a) \<and> 0 \<le> a \<and> a \<le> 99)"
proof -
  have 1: "length (memory init_machine) = 256" by (simp add: init_machine_def)
  have 2: "length (memory (reset s)) = length (memory s)" by (simp add: reset_def)
  have 4: "length (memory s) \<le> length (memory (snd (loadProgram code s)))"
    by (simp add: loadProgram_def length_write_program_ge split: prod.split)
  have 5: "(\<forall>e \<in> set (fst (assembleProgram code)). address e < length (memory s)) \<longrightarrow>
        length (memory (snd (loadProgram code s))) = length (memory s)"
    by (auto simp: loadProgram_def length_write_program_same split: prod.split)
  have 6: "\<exists>k a. decode (Num w) = (Num k, Num a) \<and> 0 \<le> a \<and> a \<le> 99"
  proof -
    have "0 \<le> int_rem \<bar>w\<bar> 100 \<and> int_rem \<bar>w\<bar> 100 \<le> 99"
      by (simp add: int_rem_def)
    then show ?thesis by (simp add: decode_def)
  qed
  show ?thesis using 1 2 4 5 6 step_memory_length by blast
qed

theorem memory_size_kept_witness:
  "100 \<le> length (memory init_machine)
   \<and> length (memory (step init_machine None)) = 256
   \<and> map address (fst (assembleProgram nop_text)) = [0]
   \<and> length (memory (snd (loadProgram nop_text init_machine))) = 256"
proof -
  have h1: "length (memory init_machine) = 256" by (simp add: init_machine_def)
  have h2: "map address (fst (assembleProgram nop_text)) = [0]" by code_simp
  have "\<forall>e \<in> set (fst (assembleProgram nop_text)).
          address e \<in> set (map address (fst (assembleProgram nop_text)))"
    by simp
  then have h3: "\<forall>e \<in> set (fst (assembleProgram nop_text)). address e < length (memory init_machine)"
    unfolding h1 h2 by simp
  show ?thesis
    using memory_size_kept [of init_machine None nop_text 0] h1 h2 h3 by simp
qed

text \<open>C3 as stated fails: the array has 256 words, not 100.\<close>

theorem memory_size_counterexample:
  "length (memory init_machine) \<noteq> 100"
  by (simp add: init_machine_def)


subsection \<open>The flags\<close>

lemma execute_flags_sound:
  assumes "flags_sound s" and "\<not> error (snd (execute k a inp s))"
  shows "flags_sound (snd (execute k a inp s))"
  using assms
  by (auto simp: execute_def Let_def set_flags_def flags_sound_def split: option.splits if_splits)

lemma execute_flags_exact:
  assumes "flags_exact s" and "\<not> error (snd (execute k a inp s))"
  shows "flags_exact (snd (execute k a inp s))"
  using assms
  by (auto simp: execute_def Let_def set_flags_def flags_exact_def split: option.splits if_splits)

lemma execute_writes_flags:
  assumes "k = Num 1 \<or> k = Num 2 \<or> k = Num 5 \<or> k = Num 901"
    and "\<not> error s" and "\<not> error (snd (execute k a inp s))"
  shows "flags_exact (snd (execute k a inp s))"
  using assms
  by (auto simp: execute_def Let_def set_flags_def flags_exact_def split: option.splits if_splits)

lemma flags_fetch:
  "flags_sound (fetched s) = flags_sound s" "flags_exact (fetched s) = flags_exact s"
  "flags_sound (aborted s) = flags_sound s" "flags_exact (aborted s) = flags_exact s"
  "flags_sound (s\<lparr>cycle := c\<rparr>) = flags_sound s" "flags_exact (s\<lparr>cycle := c\<rparr>) = flags_exact s"
  by (simp_all add: flags_sound_def flags_exact_def fetch_fields aborted_def)

lemma flags_step_eq:
  assumes "\<not> halted s" "\<not> error s" "\<not> fetch_throws s"
  shows "flags_sound (step s inp) = flags_sound (exec_part s inp)"
    "flags_exact (step s inp) = flags_exact (exec_part s inp)"
  using assms by (simp_all add: flags_sound_def flags_exact_def step_fields)

lemma step_flags_sound:
  assumes "flags_sound s" and "\<not> error (step s inp)"
  shows "flags_sound (step s inp)"
proof (cases "halted s \<or> error s")
  case True
  with assms show ?thesis by (simp add: step_stopped)
next
  case False
  show ?thesis
  proof (cases "fetch_throws s")
    case True
    with False assms(1) show ?thesis by (simp add: step_aborted flags_fetch)
  next
    case nt: False
    with False have ne: "\<not> error (exec_part s inp)" using assms(2) by (simp add: step_fields)
    have "flags_sound (exec_part s inp)"
      using ne unfolding exec_part_unfold
      by (intro execute_flags_sound) (simp_all add: flags_fetch assms(1))
    with False nt show ?thesis by (simp add: flags_step_eq)
  qed
qed

lemma step_flags_exact:
  assumes "flags_exact s" and "\<not> error (step s inp)"
  shows "flags_exact (step s inp)"
proof (cases "halted s \<or> error s")
  case True
  with assms show ?thesis by (simp add: step_stopped)
next
  case False
  show ?thesis
  proof (cases "fetch_throws s")
    case True
    with False assms(1) show ?thesis by (simp add: step_aborted flags_fetch)
  next
    case nt: False
    with False have ne: "\<not> error (exec_part s inp)" using assms(2) by (simp add: step_fields)
    have "flags_exact (exec_part s inp)"
      using ne unfolding exec_part_unfold
      by (intro execute_flags_exact) (simp_all add: flags_fetch assms(1))
    with False nt show ?thesis by (simp add: flags_step_eq)
  qed
qed

lemma step_writes_flags:
  assumes "\<not> halted s" and "\<not> error s"
    and "next_opcode s = Num 1 \<or> next_opcode s = Num 2 \<or> next_opcode s = Num 5
         \<or> next_opcode s = Num 901"
    and "\<not> error (step s inp)"
  shows "flags_exact (step s inp)"
proof -
  have nt: "\<not> fetch_throws s"
    using assms(3) by (auto simp: fetch_throws_next_word next_opcode_def decode_Undefined)
  have ne: "\<not> error (exec_part s inp)" using assms nt by (simp add: step_fields)
  have "flags_exact (exec_part s inp)"
    using ne assms(3) unfolding exec_part_unfold next_opcode_def
    by (intro execute_writes_flags) (simp_all add: fetch_fields assms(2))
  with assms(1,2) nt show ?thesis by (simp add: flags_step_eq)
qed

lemma perform_flags_sound:
  assumes "\<not> error s \<longrightarrow> flags_sound s"
  shows "\<not> error (perform s act) \<longrightarrow> flags_sound (perform s act)"
proof (cases act)
  case (DoStep inp)
  show ?thesis
  proof (cases "error s")
    case True
    then show ?thesis by (simp add: DoStep step_stopped)
  next
    case False
    with assms show ?thesis by (simp add: DoStep step_flags_sound)
  qed
next
  case DoReset
  show ?thesis by (simp add: DoReset reset_def flags_sound_def)
next
  case (DoLoad code)
  show ?thesis using assms
    by (auto simp: DoLoad loadProgram_def flags_sound_def split: prod.splits if_splits)
qed

lemma perform_all_flags_sound:
  "\<not> error (perform_all acts init_machine) \<longrightarrow> flags_sound (perform_all acts init_machine)"
proof (induction acts rule: rev_induct)
  case Nil
  show ?case by (simp add: perform_all_def init_machine_def flags_sound_def)
next
  case (snoc act acts)
  have "perform_all (acts @ [act]) init_machine = perform (perform_all acts init_machine) act"
    by (simp add: perform_all_def)
  with perform_flags_sound [OF snoc.IH] show ?case by simp
qed

text \<open>
  C2, as amended. In every state reached from the initial machine by calls of \<open>step\<close>,
  \<open>reset\<close> and \<open>loadProgram\<close> whose error flag is not set, \<open>N\<close> holds exactly when \<open>AC < 0\<close>, and
  \<open>Z\<close> holds only when \<open>AC\<close> is 0. After a step that executes ADD, SUB, LOAD or IN without
  raising the error flag, both flags are exact (\<open>Z\<close> iff \<open>AC\<close> is 0, \<open>N\<close> iff \<open>AC < 0\<close>), and
  exact flags stay exact along every later step that raises no error. In the initial
  state and after \<open>reset\<close>, \<open>AC\<close> is 0 while \<open>Z\<close> and \<open>N\<close> are both false.
\<close>

theorem flag_invariant:
  "(\<not> error (perform_all acts init_machine) \<longrightarrow> flags_sound (perform_all acts init_machine))
   \<and> (\<not> halted s \<and> \<not> error s
        \<and> (next_opcode s = Num 1 \<or> next_opcode s = Num 2 \<or> next_opcode s = Num 5
           \<or> next_opcode s = Num 901)
        \<and> \<not> error (step s inp) \<longrightarrow> flags_exact (step s inp))
   \<and> (flags_exact s \<and> \<not> error (step s inp) \<longrightarrow> flags_exact (step s inp))
   \<and> AC init_machine = Num 0 \<and> \<not> Z init_machine \<and> \<not> N init_machine
   \<and> AC (reset s) = Num 0 \<and> \<not> Z (reset s) \<and> \<not> N (reset s)"
proof -
  have "AC init_machine = Num 0 \<and> \<not> Z init_machine \<and> \<not> N init_machine"
    by (simp add: init_machine_def)
  moreover have "AC (reset s) = Num 0 \<and> \<not> Z (reset s) \<and> \<not> N (reset s)"
    by (simp add: reset_def)
  ultimately show ?thesis
    using perform_all_flags_sound step_writes_flags step_flags_exact by blast
qed

theorem flag_invariant_witness:
  "\<not> error (perform_all [DoLoad flags_text, DoStep None] init_machine)
   \<and> flags_sound (perform_all [DoLoad flags_text, DoStep None] init_machine)
   \<and> \<not> halted (loaded flags_text) \<and> \<not> error (loaded flags_text)
   \<and> next_opcode (loaded flags_text) = Num 5
   \<and> \<not> error (step (loaded flags_text) None)
   \<and> flags_exact (step (loaded flags_text) None)
   \<and> \<not> error (step (step (loaded flags_text) None) None)
   \<and> flags_exact (step (step (loaded flags_text) None) None)"
proof -
  have h0: "\<not> error (perform_all [DoLoad flags_text, DoStep None] init_machine)" by code_simp
  have h1: "\<not> halted (loaded flags_text)" by code_simp
  have h2: "\<not> error (loaded flags_text)" by code_simp
  have h3: "next_opcode (loaded flags_text) = Num 5" by code_simp
  have h4: "\<not> error (step (loaded flags_text) None)" by code_simp
  have h5: "\<not> error (step (step (loaded flags_text) None) None)" by code_simp
  note r1 = flag_invariant [of "[DoLoad flags_text, DoStep None]" "loaded flags_text" None]
  from r1 h0 have a: "flags_sound (perform_all [DoLoad flags_text, DoStep None] init_machine)"
    by blast
  from r1 h1 h2 h3 h4 have b: "flags_exact (step (loaded flags_text) None)"
    by blast
  note r2 = flag_invariant [of "[]" "step (loaded flags_text) None" None]
  from r2 b h5 have c: "flags_exact (step (step (loaded flags_text) None) None)"
    by blast
  show ?thesis using h0 h1 h2 h3 h4 h5 a b c by blast
qed

text \<open>
  C2 as stated fails. In the initial state \<open>AC\<close> is 0 and \<open>Z\<close> is false. And an overflow
  overwrites \<open>AC\<close> without touching the flags: after SUB of a cell holding 2000 from the
  initial accumulator, \<open>AC\<close> is \<open>-2000\<close> and \<open>N\<close> is false.
\<close>

theorem flag_invariant_counterexample:
  "AC init_machine = Num 0 \<and> \<not> Z init_machine
   \<and> AC (step (loaded stale_text) None) = Num (- 2000)
   \<and> \<not> N (step (loaded stale_text) None)
   \<and> error (step (loaded stale_text) None)"
  by code_simp

subsection \<open>Loading a program\<close>

lemma mem_read_write_nat:
  "mem_read (mem_write m (Num (int a)) v) (Num (int i)) =
     (if i = a then v else mem_read m (Num (int i)))"
  by (auto simp: nth_append nth_Cons')

lemma write_program_Cons:
  "write_program m (e # p) = write_program (mem_write m (Num (int (address e))) (bytecode e)) p"
  by (simp add: write_program_def)

lemma mem_read_write_program:
  "mem_read (write_program m p) (Num (int i)) =
     (case last_write p i of Some v \<Rightarrow> v | None \<Rightarrow> mem_read m (Num (int i)))"
proof (induction p arbitrary: m)
  case Nil
  show ?case by (simp add: write_program_def)
next
  case (Cons e p)
  show ?case
    unfolding write_program_Cons Cons.IH
    by (simp add: mem_read_write_nat del: mem_read.simps mem_write.simps split: option.split)
qed

lemma last_write_None: "last_write p i = None \<longleftrightarrow> i \<notin> address ` set p"
  by (induction p) (auto split: option.splits)

lemma length_write_program: "length (write_program m p) = max (length m) (extent p)"
proof (induction p arbitrary: m)
  case Nil
  show ?case by (simp add: write_program_def)
next
  case (Cons e p)
  show ?case
    unfolding write_program_Cons Cons.IH length_mem_write_nat by simp
qed

lemma list_eq_mem_read:
  assumes "length xs = length ys"
    and "\<And>i. mem_read xs (Num (int i)) = mem_read ys (Num (int i))"
  shows "xs = ys"
proof (rule nth_equalityI)
  show "length xs = length ys" by fact
next
  fix i assume "i < length xs"
  with assms(1) assms(2) [of i] show "xs ! i = ys ! i" by simp
qed

lemma write_program_idem: "write_program (write_program m p) p = write_program m p"
proof (rule list_eq_mem_read)
  show "length (write_program (write_program m p) p) = length (write_program m p)"
    by (simp add: length_write_program)
next
  fix i
  show "mem_read (write_program (write_program m p) p) (Num (int i)) =
        mem_read (write_program m p) (Num (int i))"
    by (simp add: mem_read_write_program del: mem_read.simps split: option.split)
qed

lemma loadProgram_memory:
  "memory (snd (loadProgram code s)) =
     (if snd (assembleProgram code) = [] then write_program (memory s) (fst (assembleProgram code))
      else memory s)"
  by (simp add: loadProgram_def split: prod.split)

lemma last_write_append:
  "last_write (xs @ ys) i =
     (case last_write ys i of Some v \<Rightarrow> Some v | None \<Rightarrow> last_write xs i)"
  by (induction xs) (simp_all split: option.split)

lemma last_write_last:
  assumes "address e \<notin> address ` set ys"
  shows "last_write (xs @ e # ys) (address e) = Some (bytecode e)"
proof -
  have "last_write ys (address e) = None"
    using assms by (simp add: last_write_None)
  then show ?thesis by (simp add: last_write_append)
qed

text \<open>
  C5, as amended. \<open>loadProgram\<close> does not zero memory. When the text assembles without
  errors, the word at the address of a table entry that no later entry overwrites is the
  bytecode of that entry (table order, last write wins), every address that no entry
  names keeps its word, and memory is as long as before or one more than the highest
  address written. So loading the same text twice in a row gives the memory that
  loading it once gives; at an address the table writes, the word after the load does
  not depend on the memory before; and after \<open>reset\<close> of a machine with 256 words a load
  gives the memory that it gives on the initial machine.
\<close>

theorem load_overwrites:
  "(snd (assembleProgram code) = [] \<and> fst (assembleProgram code) = xs @ e # ys
      \<and> address e \<notin> address ` set ys \<longrightarrow>
        mem_read (memory (snd (loadProgram code s))) (Num (int (address e))) = bytecode e)
   \<and> (a \<notin> address ` set (fst (assembleProgram code)) \<longrightarrow>
        mem_read (memory (snd (loadProgram code s))) (Num (int a)) = mem_read (memory s) (Num (int a)))
   \<and> (snd (assembleProgram code) = [] \<longrightarrow>
        length (memory (snd (loadProgram code s)))
          = max (length (memory s)) (extent (fst (assembleProgram code))))
   \<and> memory (snd (loadProgram code (snd (loadProgram code s)))) = memory (snd (loadProgram code s))
   \<and> (a \<in> address ` set (fst (assembleProgram code)) \<and> snd (assembleProgram code) = [] \<longrightarrow>
        mem_read (memory (snd (loadProgram code s))) (Num (int a))
          = mem_read (memory (snd (loadProgram code t))) (Num (int a)))
   \<and> (length (memory s) = 256 \<longrightarrow>
        memory (snd (loadProgram code (reset s))) = memory (snd (loadProgram code init_machine)))"
proof -
  have 0: "mem_read (memory (snd (loadProgram code s))) (Num (int (address e))) = bytecode e"
    if "snd (assembleProgram code) = []" "fst (assembleProgram code) = xs @ e # ys"
      "address e \<notin> address ` set ys"
    using that last_write_last [OF that(3), of xs]
    by (simp add: loadProgram_memory mem_read_write_program del: mem_read.simps)
  have 1: "memory (snd (loadProgram code (snd (loadProgram code s)))) = memory (snd (loadProgram code s))"
    by (simp add: loadProgram_memory write_program_idem)
  have 2: "mem_read (memory (snd (loadProgram code s))) (Num (int a)) = mem_read (memory s) (Num (int a))"
    if "a \<notin> address ` set (fst (assembleProgram code))"
  proof -
    from that have "last_write (fst (assembleProgram code)) a = None"
      by (simp add: last_write_None)
    then show ?thesis
      by (simp add: loadProgram_memory mem_read_write_program del: mem_read.simps)
  qed
  have 3: "mem_read (memory (snd (loadProgram code s))) (Num (int a))
          = mem_read (memory (snd (loadProgram code t))) (Num (int a))"
    if "a \<in> address ` set (fst (assembleProgram code))" "snd (assembleProgram code) = []"
  proof -
    from that(1) obtain v where "last_write (fst (assembleProgram code)) a = Some v"
      using last_write_None [of "fst (assembleProgram code)" a]
      by (cases "last_write (fst (assembleProgram code)) a") auto
    then show ?thesis
      using that(2) by (simp add: loadProgram_memory mem_read_write_program del: mem_read.simps)
  qed
  have 4: "memory (snd (loadProgram code (reset s))) = memory (snd (loadProgram code init_machine))"
    if "length (memory s) = 256"
  proof -
    have "memory (reset s) = memory init_machine"
      using that by (simp add: reset_def init_machine_def map_replicate_const)
    then show ?thesis by (simp add: loadProgram_memory)
  qed
  have 5: "length (memory (snd (loadProgram code s)))
          = max (length (memory s)) (extent (fst (assembleProgram code)))"
    if "snd (assembleProgram code) = []"
    using that by (simp add: loadProgram_memory length_write_program)
  show ?thesis using 0 1 2 3 4 5 by blast
qed

theorem load_overwrites_witness:
  "snd (assembleProgram twice_text) = []
   \<and> fst (assembleProgram twice_text) =
        [\<lparr>address = 0, bytecode = Num 7, line = 0, instruction = ''DAT'', operand = Num 7\<rparr>,
         \<lparr>address = 0, bytecode = Num 9, line = 2, instruction = ''DAT'', operand = Num 9\<rparr>]
   \<and> mem_read (memory (loaded twice_text)) (Num 0) = Num 9
   \<and> map address (fst (assembleProgram second_text)) = [0]
   \<and> snd (assembleProgram second_text) = []
   \<and> mem_read (memory (snd (loadProgram second_text (loaded first_text)))) (Num 1)
       = mem_read (memory (loaded first_text)) (Num 1)
   \<and> mem_read (memory (snd (loadProgram second_text (loaded first_text)))) (Num 0)
       = mem_read (memory (loaded second_text)) (Num 0)
   \<and> length (memory (loaded first_text)) = 256
   \<and> length (memory (snd (loadProgram second_text (loaded first_text)))) = 256
   \<and> memory (snd (loadProgram second_text (reset (loaded first_text))))
       = memory (loaded second_text)"
proof -
  let ?e1 = "\<lparr>address = 0, bytecode = Num 7, line = 0, instruction = ''DAT'', operand = Num 7\<rparr>"
  let ?e2 = "\<lparr>address = 0, bytecode = Num 9, line = 2, instruction = ''DAT'', operand = Num 9\<rparr>"
  have t1: "snd (assembleProgram twice_text) = []" by code_simp
  have t2: "fst (assembleProgram twice_text) = [?e1, ?e2]" by code_simp
  have t3: "fst (assembleProgram twice_text) = [?e1] @ ?e2 # []" using t2 by simp
  have t4: "address ?e2 \<notin> address ` set []" by simp
  note rt = load_overwrites [of twice_text "[?e1]" ?e2 "[]" init_machine 0 init_machine]
  from rt t1 t3 t4
  have "mem_read (memory (snd (loadProgram twice_text init_machine))) (Num (int (address ?e2)))
          = bytecode ?e2"
    by blast
  then have t: "mem_read (memory (loaded twice_text)) (Num 0) = Num 9"
    by (simp add: loaded_def del: mem_read.simps)
  have h1: "map address (fst (assembleProgram second_text)) = [0]" by code_simp
  have h2: "snd (assembleProgram second_text) = []" by code_simp
  have h3: "length (memory (loaded first_text)) = 256" by code_simp
  have h4: "extent (fst (assembleProgram second_text)) = 1" by code_simp
  have img: "address ` set (fst (assembleProgram second_text)) = {0}"
    using arg_cong [OF h1, of set] by simp
  have n1: "(1::nat) \<notin> address ` set (fst (assembleProgram second_text))"
    using img by simp
  have i0: "(0::nat) \<in> address ` set (fst (assembleProgram second_text))"
    using img by simp
  note r1 = load_overwrites [of second_text "[]" ?e1 "[]" "loaded first_text" 1 init_machine]
  note r0 = load_overwrites [of second_text "[]" ?e1 "[]" "loaded first_text" 0 init_machine]
  from r1 n1
  have "mem_read (memory (snd (loadProgram second_text (loaded first_text)))) (Num (int 1))
       = mem_read (memory (loaded first_text)) (Num (int 1))"
    by blast
  then have a: "mem_read (memory (snd (loadProgram second_text (loaded first_text)))) (Num 1)
       = mem_read (memory (loaded first_text)) (Num 1)"
    by (simp del: mem_read.simps)
  from r0 i0 h2
  have "mem_read (memory (snd (loadProgram second_text (loaded first_text)))) (Num (int 0))
       = mem_read (memory (snd (loadProgram second_text init_machine))) (Num (int 0))"
    by blast
  then have b: "mem_read (memory (snd (loadProgram second_text (loaded first_text)))) (Num 0)
       = mem_read (memory (loaded second_text)) (Num 0)"
    by (simp add: loaded_def del: mem_read.simps)
  from r0 h3
  have "memory (snd (loadProgram second_text (reset (loaded first_text))))
       = memory (snd (loadProgram second_text init_machine))"
    by blast
  then have c: "memory (snd (loadProgram second_text (reset (loaded first_text))))
       = memory (loaded second_text)"
    by (simp add: loaded_def)
  from r0 h2
  have "length (memory (snd (loadProgram second_text (loaded first_text))))
       = max (length (memory (loaded first_text))) (extent (fst (assembleProgram second_text)))"
    by blast
  then have d: "length (memory (snd (loadProgram second_text (loaded first_text)))) = 256"
    by (simp add: h3 h4)
  show ?thesis using t1 t2 t h1 h2 h3 a b c d by blast
qed

text \<open>
  C5 as stated fails: after loading DAT 7, DAT 8 and then DAT 1 without a reset, address
  1 still holds 8, where a fresh machine loaded with DAT 1 has 0 there.
\<close>

theorem stale_words_counterexample:
  "take 3 (memory (snd (loadProgram second_text (loaded first_text)))) = [Num 1, Num 8, Num 0]
   \<and> take 3 (memory (loaded second_text)) = [Num 1, Num 0, Num 0]"
  by code_simp


subsection \<open>Unknown mnemonics\<close>

lemma assembleLoop_append:
  "assembleLoop i (xs @ ys) st = assembleLoop (i + length xs) ys (assembleLoop i xs st)"
  by (induction xs arbitrary: i st) simp_all

lemma assembleLine_errs:
  "assembleLine i raw (p, e, a) =
     (case assembleLine i raw (p, [], a) of (p', e', a') \<Rightarrow> (p', e @ e', a'))"
  by (simp add: assembleLine_def Let_def split: option.split jsval.split)

lemma assembleLoop_errs:
  "assembleLoop i ls (p, e, a) =
     (case assembleLoop i ls (p, [], a) of (p', e', a') \<Rightarrow> (p', e @ e', a'))"
proof (induction ls arbitrary: i p e a)
  case Nil
  show ?case by simp
next
  case (Cons l ls)
  obtain p1 e1 a1 where l1: "assembleLine i l (p, [], a) = (p1, e1, a1)"
    by (cases "assembleLine i l (p, [], a)") auto
  have l2: "assembleLine i l (p, e, a) = (p1, e @ e1, a1)"
    using assembleLine_errs [of i l p e a] l1 by simp
  obtain p2 e2 a2 where r: "assembleLoop (i + 1) ls (p1, [], a1) = (p2, e2, a2)"
    by (cases "assembleLoop (i + 1) ls (p1, [], a1)") auto
  have "assembleLoop (i + 1) ls (p1, e @ e1, a1) = (p2, (e @ e1) @ e2, a2)"
    using Cons.IH [of "i + 1" p1 "e @ e1" a1] r by simp
  moreover have "assembleLoop (i + 1) ls (p1, e1, a1) = (p2, e1 @ e2, a2)"
    using Cons.IH [of "i + 1" p1 e1 a1] r by simp
  ultimately show ?case
    by (simp add: l1 l2)
qed

lemma assembleLine_blank: "assembleLine i [] st = st"
  by (cases st) (simp add: assembleLine_def codeOnly_of_def trim_def)

lemma assembleLine_unknown:
  assumes "unknown_mnemonic_line raw"
  shows "assembleLine i raw (p, e, a) =
           (p, e @ [unknown_instruction_error i (line_mnemonic raw)], a)"
  using assms
  by (auto simp: unknown_mnemonic_line_def line_mnemonic_def assembleLine_def Let_def
           split: option.splits)

lemma digit_val_digit_char: "d < 10 \<Longrightarrow> digit_val (digit_char d) = int d"
  by (simp add: digit_val_def digit_char_def)

lemma digits_value_snoc: "digits_value (ds @ [c]) = 10 * digits_value ds + digit_val c"
  by (simp add: digits_value_def)

lemma digits_value_decimal: "digits_value (decimal n) = int n"
proof (induction n rule: decimal.induct)
  case (1 n)
  show ?case
  proof (cases "n div 10 = 0")
    case True
    then have "n < 10" by (simp add: div_eq_0_iff)
    then show ?thesis
      using True by (simp add: decimal.simps [of n] digits_value_def digit_val_digit_char)
  next
    case False
    have "digits_value (decimal n) = 10 * int (n div 10) + int (n mod 10)"
      using False "1.IH"
      by (simp add: decimal.simps [of n] digits_value_snoc digit_val_digit_char)
    then show ?thesis by (simp add: zdiv_int zmod_int)
  qed
qed

text \<open>
  C9, as amended. The lines of a text are assembled by \<open>assembleLines\<close> (\<open>assembleProgram\<close>
  is \<open>assembleLines\<close> of the lines of the text). Take a line that reaches the lookup of
  its mnemonic (it has code text that starts neither with \<open>*\<close> nor, in any letter case,
  with DAT, and is no bare integer) and whose first token in upper case is no key of
  \<open>OPCODES\<close>. It adds exactly one error, after the errors of the lines before it: the text
  \<open>Line n: Unknown instruction 'X'\<close>, with \<open>n\<close> the decimal numeral of its line number (one
  more than the number of lines before it) and \<open>X\<close> the token in upper case. The
  program table, and so every address in it, is the one obtained with a blank line in
  its place, and the errors of the lines after it are the same as with a blank line in
  its place.
\<close>

theorem unknown_line_reported:
  assumes "unknown_mnemonic_line raw"
  shows "fst (assembleLines (pre @ raw # post)) = fst (assembleLines (pre @ [] # post))
       \<and> snd (assembleLines (pre @ raw # post)) =
           snd (assembleLines pre)
           @ [''Line '' @ decimal (length pre + 1) @ '': Unknown instruction '' @ [CHR 0x27]
                @ line_mnemonic raw @ [CHR 0x27]]
           @ drop (length (snd (assembleLines pre))) (snd (assembleLines (pre @ [] # post)))
       \<and> digits_value (decimal (length pre + 1)) = int (length pre) + 1
       \<and> take (length (snd (assembleLines pre))) (snd (assembleLines (pre @ [] # post)))
           = snd (assembleLines pre)"
proof -
  obtain p e a where S: "assembleLoop 0 pre ([], [], 0) = (p, e, a)"
    by (cases "assembleLoop 0 pre ([], [], 0)") auto
  obtain p' e' a' where R: "assembleLoop (length pre + 1) post (p, [], a) = (p', e', a')"
    by (cases "assembleLoop (length pre + 1) post (p, [], a)") auto
  let ?msg = "unknown_instruction_error (length pre) (line_mnemonic raw)"
  have T1: "assembleLoop 0 (pre @ raw # post) ([], [], 0) = (p', (e @ [?msg]) @ e', a')"
    using assembleLoop_errs [of "length pre + 1" post p "e @ [?msg]" a] R
    by (simp add: assembleLoop_append S assembleLine_unknown [OF assms])
  have T2: "assembleLoop 0 (pre @ [] # post) ([], [], 0) = (p', e @ e', a')"
    using assembleLoop_errs [of "length pre + 1" post p e a] R
    by (simp add: assembleLoop_append S assembleLine_blank)
  have "digits_value (decimal (length pre + 1)) = int (length pre) + 1"
    by (simp add: digits_value_decimal)
  then show ?thesis
    by (simp add: assembleLines_def S T1 T2 unknown_instruction_error_def)
qed

theorem unknown_line_reported_witness:
  "unknown_mnemonic_line ''FOO 5'' \<and> line_mnemonic ''FOO 5'' = ''FOO''
   \<and> fst (assembleLines [''LDA 10'', ''FOO 5'', ''HLT''])
       = fst (assembleLines [''LDA 10'', [], ''HLT''])
   \<and> snd (assembleLines [''LDA 10'', ''FOO 5'', ''HLT''])
       = [''Line 2: Unknown instruction '' @ [CHR 0x27] @ ''FOO'' @ [CHR 0x27]]
   \<and> map address (fst (assembleLines [''LDA 10'', ''FOO 5'', ''HLT''])) = [0, 1]"
proof -
  have h1: "unknown_mnemonic_line ''FOO 5''" by code_simp
  have h2: "line_mnemonic ''FOO 5'' = ''FOO''" by code_simp
  have h3: "snd (assembleLines [''LDA 10'']) = []" by code_simp
  have h4: "snd (assembleLines [''LDA 10'', [], ''HLT'']) = []" by code_simp
  have h5: "map address (fst (assembleLines [''LDA 10'', [], ''HLT''])) = [0, 1]" by code_simp
  have "decimal 2 = ''2''" by code_simp
  then have h6: "decimal (Suc (Suc 0)) = ''2''" by (simp add: numeral_2_eq_2)
  note r = unknown_line_reported [OF h1, of "[''LDA 10'']" "[''HLT'']"]
  from r have a: "fst (assembleLines [''LDA 10'', ''FOO 5'', ''HLT''])
       = fst (assembleLines [''LDA 10'', [], ''HLT''])"
    by simp
  from r have b: "snd (assembleLines [''LDA 10'', ''FOO 5'', ''HLT''])
       = [''Line 2: Unknown instruction '' @ [CHR 0x27] @ ''FOO'' @ [CHR 0x27]]"
    by (simp add: h2 h3 h4 h6)
  show ?thesis using h1 h2 a b h5 by simp
qed

text \<open>
  C9 as stated fails for an unknown mnemonic that starts with DAT: the first token of the
  line \<open>DATABASE 5\<close> is no key of \<open>OPCODES\<close>, yet the line is taken for a data directive
  before the lookup and assembly reports no error.
\<close>

theorem dat_prefix_counterexample:
  "map_of OPCODES (mnemonic_of ''DATABASE 5'') = None
   \<and> assembleProgram ''DATABASE 5'' = ([], [])"
  by code_simp

subsection \<open>Programs without branches\<close>








subsection \<open>A table longer than memory\<close>












end
